theory Spec2Isabelle
  imports Complex_Main "HOL-Library.AList" "HOL-Library.FSet" "HOL-Library.Sublist"
begin

section \<open>Python values\<close>

text \<open>
  The agents exchange plain Python values: booleans, integers, floats, strings, lists
  and dictionaries. A dictionary is an association list in insertion order, which is the
  order a Python \<^verbatim>\<open>dict\<close> iterates in. Strings are \<^typ>\<open>string\<close>: the model covers
  messages made of ASCII characters.
\<close>

datatype pyval =
    PNone
  | PBool bool
  | PInt int
  | PFloat real
  | PStr string
  | PList "pyval list"
  | PDict "(string \<times> pyval) list"

type_synonym pydict = "(string \<times> pyval) list"

text \<open>\<^verbatim>\<open>d.get(key, default)\<close>\<close>

definition dict_get :: "pydict \<Rightarrow> string \<Rightarrow> pyval \<Rightarrow> pyval" where
  "dict_get d k dflt = (case map_of d k of None \<Rightarrow> dflt | Some v \<Rightarrow> v)"

text \<open>
  The exceptions of the model: the three Python built-ins that the operations below can
  meet, and the failures of the invocation router. \<open>OperationError target operation e\<close>
  is the error \<open>e\<close> raised inside an invoked operation, with its call-site context.
\<close>

datatype error =
    KeyError
  | TypeError
  | AttributeError
  | UnknownAgentError string
  | UnknownOperationError string string
  | InvalidArgumentsError "string list" "string list"
  | OperationError string string error

section \<open>ConversationAgent\<close>

text \<open>
  \<^verbatim>\<open>self.history: List[Dict[str, str]] = []\<close>. The annotations are not enforced by
  Python, so a record keeps whatever values \<^verbatim>\<open>role\<close> and \<^verbatim>\<open>content\<close> were given.
\<close>

type_synonym history = "pydict list"

definition init_history :: history where
  "init_history = []"

text \<open>
  \<^verbatim>\<open>message = {"role": role, "content": content}; self.history.append(message);
  return {"success": True, "message_count": len(self.history)}\<close>
\<close>

definition add_message :: "history \<Rightarrow> pyval \<Rightarrow> pyval \<Rightarrow> history \<times> pydict" where
  "add_message h role content =
     (let message = [(''role'', role), (''content'', content)];
          h' = h @ [message]
      in (h', [(''success'', PBool True), (''message_count'', PInt (int (length h')))]))"

text \<open>
  \<^verbatim>\<open>xs[start:]\<close> for an integer \<^verbatim>\<open>start\<close>: a negative start counts from the end, and
  the start is then clamped to the range \<open>0..len(xs)\<close>.
\<close>

definition slice_from :: "'a list \<Rightarrow> int \<Rightarrow> 'a list" where
  "slice_from xs start =
     (let n = int (length xs);
          s = (if start < 0 then (if start + n < 0 then 0 else start + n)
               else (if start > n then n else start))
      in drop (nat s) xs)"

text \<open>\<^verbatim>\<open>return self.history[-limit:]\<close>\<close>

definition get_history :: "history \<Rightarrow> int \<Rightarrow> pydict list" where
  "get_history h limit = slice_from h (- limit)"

text \<open>
  \<^verbatim>\<open>count = len(self.history); self.history = [];
  return {"success": True, "cleared_count": count}\<close>
\<close>

definition clear_history :: "history \<Rightarrow> history \<times> pydict" where
  "clear_history h =
     (let count = length h
      in ([], [(''success'', PBool True), (''cleared_count'', PInt (int count))]))"

text \<open>A run of \<^verbatim>\<open>add_message\<close> calls, each given as a pair of role and content.\<close>

fun add_messages :: "history \<Rightarrow> (pyval \<times> pyval) list \<Rightarrow> history" where
  "add_messages h [] = h"
| "add_messages h ((role, content) # ms) = add_messages (fst (add_message h role content)) ms"

section \<open>IntentClassifierAgent\<close>

text \<open>\<^verbatim>\<open>str.lower()\<close> on ASCII characters.\<close>

definition lower_char :: "char \<Rightarrow> char" where
  "lower_char c =
     (let n = (of_char c :: nat)
      in if 65 \<le> n \<and> n \<le> 90 then char_of (n + 32) else c)"

definition lower :: "string \<Rightarrow> string" where
  "lower s = map lower_char s"

text \<open>\<^verbatim>\<open>w in s\<close> for strings: \<open>w\<close> occurs in \<open>s\<close> as a contiguous substring.\<close>

fun str_contains :: "string \<Rightarrow> string \<Rightarrow> bool" where
  "str_contains [] w = (w = [])"
| "str_contains (c # cs) w = (prefix w (c # cs) \<or> str_contains cs w)"

text \<open>
  \<^verbatim>\<open>any(word in message_lower for word in words)\<close>
\<close>

definition any_word_in :: "string list \<Rightarrow> string \<Rightarrow> bool" where
  "any_word_in words s = list_ex (\<lambda>word. str_contains s word) words"

definition classify_intent :: "string \<Rightarrow> pydict" where
  "classify_intent message =
     (let message_lower = lower message
      in if any_word_in [''hello'', ''hi'', ''hey''] message_lower
           then [(''intent'', PStr ''greeting''), (''confidence'', PFloat 0.9)]
         else if any_word_in [''bye'', ''goodbye'', ''see you''] message_lower
           then [(''intent'', PStr ''farewell''), (''confidence'', PFloat 0.9)]
         else if str_contains message ''?''
           then [(''intent'', PStr ''question''), (''confidence'', PFloat 0.7)]
         else [(''intent'', PStr ''statement''), (''confidence'', PFloat 0.6)])"

section \<open>RoomManager\<close>

text \<open>
  \<^verbatim>\<open>self.rooms: Dict[str, Set[str]] = {}\<close>: the dictionary in insertion order, each
  room holding a finite set of user ids.
\<close>

type_synonym rooms = "(string \<times> string fset) list"

definition init_rooms :: rooms where
  "init_rooms = []"

text \<open>\<^verbatim>\<open>k in d\<close>\<close>

definition dict_contains :: "('k \<times> 'v) list \<Rightarrow> 'k \<Rightarrow> bool" where
  "dict_contains d k = (k \<in> set (map fst d))"

text \<open>\<^verbatim>\<open>d[k]\<close> raises \<^verbatim>\<open>KeyError\<close> on a missing key.\<close>

definition dict_getitem :: "('k \<times> 'v) list \<Rightarrow> 'k \<Rightarrow> error + 'v" where
  "dict_getitem d k = (case map_of d k of None \<Rightarrow> Inl KeyError | Some v \<Rightarrow> Inr v)"

text \<open>\<^verbatim>\<open>s.remove(x)\<close> raises \<^verbatim>\<open>KeyError\<close> when \<open>x\<close> is not in the set.\<close>

definition set_remove :: "'a fset \<Rightarrow> 'a \<Rightarrow> error + 'a fset" where
  "set_remove s x = (if x |\<in>| s then Inr (s |-| {|x|}) else Inl KeyError)"

definition create_room :: "rooms \<Rightarrow> string \<Rightarrow> error + rooms \<times> pydict" where
  "create_room rs room_id =
     (if dict_contains rs room_id
        then Inr (rs, [(''success'', PBool False), (''error'', PStr ''Room already exists'')])
      else Inr (AList.update room_id {||} rs,
                [(''success'', PBool True), (''room_id'', PStr room_id)]))"

definition join_room :: "rooms \<Rightarrow> string \<Rightarrow> string \<Rightarrow> error + rooms \<times> pydict" where
  "join_room rs room_id user_id =
     (let rs1 = (if \<not> dict_contains rs room_id then AList.update room_id {||} rs else rs)
      in case dict_getitem rs1 room_id of
           Inl e \<Rightarrow> Inl e
         | Inr members \<Rightarrow>
             (let rs2 = AList.update room_id (finsert user_id members) rs1
              in case dict_getitem rs2 room_id of
                   Inl e \<Rightarrow> Inl e
                 | Inr members' \<Rightarrow>
                     Inr (rs2, [(''success'', PBool True), (''room_id'', PStr room_id),
                                (''user_id'', PStr user_id),
                                (''member_count'', PInt (int (fcard members')))])))"

definition leave_room :: "rooms \<Rightarrow> string \<Rightarrow> string \<Rightarrow> error + rooms \<times> pydict" where
  "leave_room rs room_id user_id =
     (let failure = [(''success'', PBool False), (''error'', PStr ''User not in room'')]
      in if dict_contains rs room_id
           then (case dict_getitem rs room_id of
                   Inl e \<Rightarrow> Inl e
                 | Inr members \<Rightarrow>
                     if user_id |\<in>| members
                       then (case set_remove members user_id of
                               Inl e \<Rightarrow> Inl e
                             | Inr members' \<Rightarrow>
                                 Inr (AList.update room_id members' rs,
                                      [(''success'', PBool True)]))
                     else Inr (rs, failure))
         else Inr (rs, failure))"

text \<open>
  \<^verbatim>\<open>list(s)\<close> enumerates a set in an order Python does not specify: \<open>xs\<close> is a
  possible value of \<^verbatim>\<open>list(s)\<close> when it lists the elements of \<open>s\<close>, each once.
\<close>

definition list_of_set :: "'a fset \<Rightarrow> 'a list \<Rightarrow> bool" where
  "list_of_set s xs = (distinct xs \<and> fset_of_list xs = s)"

text \<open>
  \<^verbatim>\<open>return list(self.rooms.get(room_id, set()))\<close>: the state is only read;
  \<open>get_room_members rs room_id xs\<close> holds when \<open>xs\<close> is a list the call can return.
\<close>

definition room_members :: "rooms \<Rightarrow> string \<Rightarrow> string fset" where
  "room_members rs room_id = (case map_of rs room_id of None \<Rightarrow> {||} | Some members \<Rightarrow> members)"

definition get_room_members :: "rooms \<Rightarrow> string \<Rightarrow> string list \<Rightarrow> bool" where
  "get_room_members rs room_id xs = list_of_set (room_members rs room_id) xs"

definition list_rooms :: "rooms \<Rightarrow> pydict list" where
  "list_rooms rs =
     map (\<lambda>(room_id, members).
            [(''room_id'', PStr room_id), (''member_count'', PInt (int (fcard members)))]) rs"

text \<open>
  The calls a client can make on the room manager, and their effect on \<^verbatim>\<open>self.rooms\<close>
  (the two read operations leave it as it is).
\<close>

datatype room_op =
    CreateRoom string
  | JoinRoom string string
  | LeaveRoom string string
  | GetRoomMembers string
  | ListRooms

fun room_step :: "rooms \<Rightarrow> room_op \<Rightarrow> error + rooms" where
  "room_step rs (CreateRoom room_id) = map_sum id fst (create_room rs room_id)"
| "room_step rs (JoinRoom room_id user_id) = map_sum id fst (join_room rs room_id user_id)"
| "room_step rs (LeaveRoom room_id user_id) = map_sum id fst (leave_room rs room_id user_id)"
| "room_step rs (GetRoomMembers room_id) = Inr rs"
| "room_step rs ListRooms = Inr rs"

fun room_run :: "rooms \<Rightarrow> room_op list \<Rightarrow> error + rooms" where
  "room_run rs [] = Inr rs"
| "room_run rs (c # cs) =
     (case room_step rs c of Inl e \<Rightarrow> Inl e | Inr rs' \<Rightarrow> room_run rs' cs)"

text \<open>The room ids that a run of calls creates or joins.\<close>

fun touched :: "room_op \<Rightarrow> string set" where
  "touched (CreateRoom room_id) = {room_id}"
| "touched (JoinRoom room_id user_id) = {room_id}"
| "touched _ = {}"

section \<open>The invocation router\<close>

text \<open>
  The state of the live agent instances. The intent classifier and the response
  generator have no fields of their own.
\<close>

record agents =
  conversation :: history
  room_manager :: rooms

definition init_agents :: agents where
  "init_agents = \<lparr>conversation = init_history, room_manager = init_rooms\<rparr>"

text \<open>
  An operation an agent exposes: the names of its parameters without and with a default,
  and the method, which gets the state of the agents and the keyword arguments.
\<close>

record operation =
  required :: "string list"
  optional :: "string list"
  call :: "agents \<Rightarrow> pydict \<Rightarrow> error + agents \<times> pyval"

type_synonym registry = "(string \<times> (string \<times> operation) list) list"

text \<open>
  Modelled from the spec: \<^verbatim>\<open>invoke\<close> of the \<^verbatim>\<open>graphbus\<close> package, which the
  agents import and which is not part of the sources. It resolves the target agent
  (\<^verbatim>\<open>UnknownAgentError\<close> if absent), looks the operation up
  (\<^verbatim>\<open>UnknownOperationError\<close>), checks that the required arguments are present and no
  unexpected one is given (\<^verbatim>\<open>InvalidArgumentsError\<close> with the missing and the
  unexpected names), dispatches synchronously, and hands an error raised inside the
  operation to the caller, unchanged in kind, with the target and operation names.
\<close>

definition invoke ::
  "registry \<Rightarrow> agents \<Rightarrow> string \<Rightarrow> string \<Rightarrow> pydict \<Rightarrow> error + agents \<times> pyval" where
  "invoke reg s target_name operation_name arguments =
     (case map_of reg target_name of
        None \<Rightarrow> Inl (UnknownAgentError target_name)
      | Some operations \<Rightarrow>
          (case map_of operations operation_name of
             None \<Rightarrow> Inl (UnknownOperationError target_name operation_name)
           | Some opn \<Rightarrow>
               (let given = map fst arguments;
                    missing = filter (\<lambda>p. p \<notin> set given) (required opn);
                    unexpected = filter (\<lambda>a. a \<notin> set (required opn @ optional opn)) given
                in if missing \<noteq> [] \<or> unexpected \<noteq> []
                     then Inl (InvalidArgumentsError missing unexpected)
                   else (case call opn s arguments of
                           Inl e \<Rightarrow> Inl (OperationError target_name operation_name e)
                         | Inr r \<Rightarrow> Inr r))))"

text \<open>
  The methods of the conversation agent and of the intent classifier as operations on
  the state of the agents. \<^verbatim>\<open>classify_intent\<close> calls \<^verbatim>\<open>message.lower()\<close>, which only
  a string has; \<^verbatim>\<open>get_history\<close> negates its limit and slices with it, which only an
  integer (or a boolean, an integer in Python) allows.
\<close>

definition add_message_op :: operation where
  "add_message_op =
     \<lparr>required = [''role'', ''content''], optional = [],
      call = (\<lambda>s kw.
        let (h', r) = add_message (conversation s) (dict_get kw ''role'' PNone)
                        (dict_get kw ''content'' PNone)
        in Inr (s\<lparr>conversation := h'\<rparr>, PDict r))\<rparr>"

definition get_history_op :: operation where
  "get_history_op =
     \<lparr>required = [], optional = [''limit''],
      call = (\<lambda>s kw.
        case dict_get kw ''limit'' (PInt 10) of
          PInt limit \<Rightarrow> Inr (s, PList (map PDict (get_history (conversation s) limit)))
        | PBool b \<Rightarrow>
            Inr (s, PList (map PDict (get_history (conversation s) (if b then 1 else 0))))
        | _ \<Rightarrow> Inl TypeError)\<rparr>"

definition clear_history_op :: operation where
  "clear_history_op =
     \<lparr>required = [], optional = [],
      call = (\<lambda>s kw.
        let (h', r) = clear_history (conversation s)
        in Inr (s\<lparr>conversation := h'\<rparr>, PDict r))\<rparr>"

definition classify_intent_op :: operation where
  "classify_intent_op =
     \<lparr>required = [''message''], optional = [],
      call = (\<lambda>s kw.
        case dict_get kw ''message'' PNone of
          PStr message \<Rightarrow> Inr (s, PDict (classify_intent message))
        | _ \<Rightarrow> Inl AttributeError)\<rparr>"

text \<open>
  The agents that \<^verbatim>\<open>ResponseGeneratorAgent\<close> declares with \<^verbatim>\<open>@depends_on\<close>, with the
  operations they expose.
\<close>

definition dependencies :: registry where
  "dependencies =
     [(''ConversationAgent'',
         [(''add_message'', add_message_op), (''get_history'', get_history_op),
          (''clear_history'', clear_history_op)]),
      (''IntentClassifierAgent'', [(''classify_intent'', classify_intent_op)])]"

text \<open>
  A registry binds an operation when a lookup of the agent and of the operation name
  finds it.
\<close>

definition binds :: "registry \<Rightarrow> string \<Rightarrow> string \<Rightarrow> operation \<Rightarrow> bool" where
  "binds reg target_name operation_name opn =
     (case map_of reg target_name of
        None \<Rightarrow> False
      | Some operations \<Rightarrow> map_of operations operation_name = Some opn)"

section \<open>ResponseGeneratorAgent\<close>

definition responses :: pydict where
  "responses =
     [(''greeting'', PStr ''Hello! How can I help you today?''),
      (''farewell'', PStr ''Goodbye! Have a great day!''),
      (''question'', PStr ''That's an interesting question. Let me think about that...''),
      (''statement'', PStr ''I understand. Tell me more!'')]"

text \<open>
  \<^verbatim>\<open>d.get(key, default)\<close> on the result of an invocation, which has the method only
  when it is a dictionary.
\<close>

definition val_get :: "pyval \<Rightarrow> string \<Rightarrow> pyval \<Rightarrow> error + pyval" where
  "val_get v k dflt = (case v of PDict d \<Rightarrow> Inr (dict_get d k dflt) | _ \<Rightarrow> Inl AttributeError)"

text \<open>
  \<^verbatim>\<open>responses.get(intent, default)\<close>: the keys of the table are strings, so any other
  hashable value misses; a list or a dictionary is not hashable.
\<close>

definition lookup_response :: "pyval \<Rightarrow> error + pyval" where
  "lookup_response intent =
     (case intent of
        PStr i \<Rightarrow> Inr (dict_get responses i (PStr ''I'm not sure how to respond to that.''))
      | PList _ \<Rightarrow> Inl TypeError
      | PDict _ \<Rightarrow> Inl TypeError
      | _ \<Rightarrow> Inr (PStr ''I'm not sure how to respond to that.''))"

definition generate_response :: "registry \<Rightarrow> agents \<Rightarrow> string \<Rightarrow> error + agents \<times> pydict" where
  "generate_response reg s message =
     (case invoke reg s ''IntentClassifierAgent'' ''classify_intent''
             [(''message'', PStr message)] of
        Inl e \<Rightarrow> Inl e
      | Inr (s1, intent_result) \<Rightarrow>
     (case val_get intent_result ''intent'' (PStr ''unknown'') of
        Inl e \<Rightarrow> Inl e
      | Inr intent \<Rightarrow>
     (case lookup_response intent of
        Inl e \<Rightarrow> Inl e
      | Inr response_text \<Rightarrow>
     (case invoke reg s1 ''ConversationAgent'' ''add_message''
             [(''role'', PStr ''user''), (''content'', PStr message)] of
        Inl e \<Rightarrow> Inl e
      | Inr (s2, _) \<Rightarrow>
     (case invoke reg s2 ''ConversationAgent'' ''add_message''
             [(''role'', PStr ''assistant''), (''content'', response_text)] of
        Inl e \<Rightarrow> Inl e
      | Inr (s3, _) \<Rightarrow>
     (case val_get intent_result ''confidence'' (PFloat 0.0) of
        Inl e \<Rightarrow> Inl e
      | Inr confidence \<Rightarrow>
          Inr (s3, [(''response'', response_text), (''intent'', intent),
                    (''confidence'', confidence)])))))))"

section \<open>Properties of the conversation history\<close>

lemma slice_from_neg: "0 < k \<Longrightarrow> slice_from xs (- k) = drop (length xs - nat k) xs"
  by (auto simp: slice_from_def Let_def nat_diff_distrib' intro: arg_cong[where f="\<lambda>n. drop n xs"])

lemma slice_from_nonneg: "0 \<le> k \<Longrightarrow> slice_from xs k = drop (nat k) xs"
  by (auto simp: slice_from_def Let_def)

text \<open>
  For a positive limit the call returns the last \<open>limit\<close> records, or all of them when
  there are fewer, in the order of the history.
\<close>

lemma get_history_positive:
  "0 < limit \<Longrightarrow> get_history h limit = drop (length h - nat limit) h"
  by (simp add: get_history_def slice_from_neg)

lemma get_history_positive_length:
  "0 < limit \<Longrightarrow> int (length (get_history h limit)) = min limit (int (length h))"
  by (simp add: get_history_positive)

text \<open>
  For a limit of zero or less the slice starts at index \<open>- limit\<close> from the front: the
  call drops the oldest \<open>- limit\<close> records and returns the rest.
\<close>

lemma get_history_nonpositive:
  "limit \<le> 0 \<Longrightarrow> get_history h limit = drop (nat (- limit)) h"
  by (simp add: get_history_def slice_from_nonneg)

lemma add_messages_append:
  "add_messages h ms =
     h @ map (\<lambda>(role, content). [(''role'', role), (''content'', content)]) ms"
  by (induction h ms rule: add_messages.induct) (simp_all add: add_message_def)

section \<open>Properties of the intent classifier\<close>

text \<open>\<^verbatim>\<open>w in s\<close> is the contiguous-sublist relation of the library.\<close>

lemma str_contains_sublist: "str_contains s w \<longleftrightarrow> sublist w s"
  by (induction s) (simp_all add: sublist_Cons_right)

section \<open>Properties of the room manager\<close>

lemma dict_contains_map_of: "dict_contains d k \<longleftrightarrow> map_of d k \<noteq> None"
  by (simp add: dict_contains_def map_of_eq_None_iff)

lemma update_absent: "k \<notin> set (map fst al) \<Longrightarrow> AList.update k v al = al @ [(k, v)]"
  by (induction al) auto

lemma keys_update: "set (map fst (AList.update k v al)) = insert k (set (map fst al))"
  using dom_update[of k v al] by simp

lemma room_members_update:
  "room_members (AList.update r m rs) r' = (if r' = r then m else room_members rs r')"
  by (simp add: room_members_def update_conv')

lemma room_members_absent: "\<not> dict_contains rs r \<Longrightarrow> room_members rs r = {||}"
  by (simp add: dict_contains_map_of room_members_def)

lemma room_members_present: "u |\<in>| room_members rs r \<Longrightarrow> r \<in> set (map fst rs)"
  by (cases "map_of rs r") (auto simp: room_members_def dest: map_of_SomeD intro: rev_image_eqI)

text \<open>
  Neither \<^verbatim>\<open>self.rooms[room_id]\<close> in \<^verbatim>\<open>join_room\<close> nor the \<^verbatim>\<open>remove\<close> in
  \<^verbatim>\<open>leave_room\<close> can raise: the methods always return, with these results.
\<close>

lemma join_room_eq:
  "join_room rs r u =
     Inr (AList.update r (finsert u (room_members rs r)) rs,
          [(''success'', PBool True), (''room_id'', PStr r), (''user_id'', PStr u),
           (''member_count'', PInt (int (fcard (finsert u (room_members rs r)))))])"
  by (cases "map_of rs r")
     (simp_all add: join_room_def dict_contains_map_of dict_getitem_def room_members_def
        update_conv')

lemma leave_room_eq:
  "leave_room rs r u =
     (if u |\<in>| room_members rs r
        then Inr (AList.update r (room_members rs r |-| {|u|}) rs, [(''success'', PBool True)])
      else Inr (rs, [(''success'', PBool False), (''error'', PStr ''User not in room'')]))"
  by (cases "map_of rs r")
     (simp_all add: leave_room_def dict_contains_map_of dict_getitem_def room_members_def
        set_remove_def)

lemma list_of_set_empty: "list_of_set {||} xs \<longleftrightarrow> xs = []"
  by (cases xs) (auto simp: list_of_set_def)

text \<open>
  Every call returns, the keys after it are the keys before it and the room it creates or
  joins, and the keys stay distinct.
\<close>

lemma room_step_total:
  "\<exists>rs'. room_step rs c = Inr rs' \<and> set (map fst rs') = set (map fst rs) \<union> touched c
      \<and> (distinct (map fst rs) \<longrightarrow> distinct (map fst rs'))"
proof (cases c)
  case (CreateRoom r)
  then show ?thesis
    by (auto simp: create_room_def dict_contains_def keys_update distinct_update
        simp del: set_map)
next
  case (JoinRoom r u)
  then show ?thesis
    by (simp add: join_room_eq keys_update distinct_update del: set_map)
next
  case (LeaveRoom r u)
  then show ?thesis
    by (auto simp: leave_room_eq keys_update distinct_update simp del: set_map
        dest: room_members_present)
qed simp_all

lemma room_run_total:
  "\<exists>rs'. room_run rs cs = Inr rs'
      \<and> set (map fst rs') = set (map fst rs) \<union> \<Union> (touched ` set cs)
      \<and> (distinct (map fst rs) \<longrightarrow> distinct (map fst rs'))"
proof (induction cs arbitrary: rs)
  case Nil
  show ?case by simp
next
  case (Cons c cs)
  obtain rs1 where s: "room_step rs c = Inr rs1"
    and k: "set (map fst rs1) = set (map fst rs) \<union> touched c"
    and d: "distinct (map fst rs) \<longrightarrow> distinct (map fst rs1)"
    using room_step_total[of rs c] by blast
  obtain rs' where r: "room_run rs1 cs = Inr rs'"
    and k': "set (map fst rs') = set (map fst rs1) \<union> \<Union> (touched ` set cs)"
    and d': "distinct (map fst rs1) \<longrightarrow> distinct (map fst rs')"
    using Cons.IH[of rs1] by blast
  show ?case using s k d r k' d' by (auto simp del: set_map)
qed

lemma fcard_fset_of_list: "distinct xs \<Longrightarrow> fcard (fset_of_list xs) = length xs"
  by (simp add: fcard.rep_eq fset_of_list.rep_eq distinct_card)

lemma list_rooms_entry:
  assumes "dict_contains rs room_id"
  shows "[(''room_id'', PStr room_id),
          (''member_count'', PInt (int (fcard (room_members rs room_id))))]
           \<in> set (list_rooms rs)"
proof -
  obtain members where m: "map_of rs room_id = Some members"
    using assms by (auto simp: dict_contains_map_of)
  then have "(room_id, members) \<in> set rs"
    by (rule map_of_SomeD)
  then show ?thesis
    using m by (force simp: list_rooms_def room_members_def)
qed

section \<open>The claims\<close>

subsection \<open>Conversation history\<close>

text \<open>
  C1: for every history and every limit \<open>\<le> 0\<close>, \<^verbatim>\<open>get_history(limit)\<close> is said to
  return an empty sequence. The code slices with \<^verbatim>\<open>[-limit:]\<close>, and \<open>-0\<close> is \<open>0\<close>: on
  a history of one record, limit \<open>0\<close> returns that record, and on a history of two records
  limit \<open>-1\<close> returns the second (see \<open>get_history_nonpositive\<close> for every such limit).
\<close>

theorem get_history_nonpositive_limit_not_empty:
  "get_history (fst (add_message init_history (PStr ''user'') (PStr ''hi''))) 0
     = [[(''role'', PStr ''user''), (''content'', PStr ''hi'')]]
   \<and> get_history [[(''role'', PStr ''user''), (''content'', PStr ''hi'')],
                    [(''role'', PStr ''assistant''), (''content'', PStr ''yo'')]] (- 1)
     = [[(''role'', PStr ''assistant''), (''content'', PStr ''yo'')]]"
  by (simp add: get_history_def slice_from_def add_message_def init_history_def)

text \<open>
  C2: after \<open>N\<close> calls of \<^verbatim>\<open>add_message\<close> on a fresh agent, \<^verbatim>\<open>get_history(limit)\<close> is said
  to return exactly \<open>min(limit, N)\<close> most recent records for every limit. After two calls,
  limit \<open>0\<close> returns both records, where \<open>min(0, 2)\<close> is \<open>0\<close>. For every limit of at
  least one the statement holds: \<open>add_messages_append\<close>, \<open>get_history_positive\<close> and
  \<open>get_history_positive_length\<close>.
\<close>

theorem get_history_limit_zero_count:
  "add_messages init_history [(PStr ''user'', PStr ''a''), (PStr ''assistant'', PStr ''b'')]
     = [[(''role'', PStr ''user''), (''content'', PStr ''a'')],
        [(''role'', PStr ''assistant''), (''content'', PStr ''b'')]]
   \<and> get_history (add_messages init_history
         [(PStr ''user'', PStr ''a''), (PStr ''assistant'', PStr ''b'')]) 0
     = [[(''role'', PStr ''user''), (''content'', PStr ''a'')],
        [(''role'', PStr ''assistant''), (''content'', PStr ''b'')]]
   \<and> min (0::int) 2 = 0"
  by (simp add: get_history_def slice_from_def add_message_def init_history_def)

text \<open>
  C7: for every history of length \<open>N\<close>, \<^verbatim>\<open>clear_history()\<close> leaves the history empty, so
  that \<^verbatim>\<open>get_history\<close> with any limit then returns no record, and returns a result with
  success true and the prior count \<open>N\<close>.
\<close>

theorem clear_history_resets:
  "clear_history h =
     ([], [(''success'', PBool True), (''cleared_count'', PInt (int (length h)))])
   \<and> get_history (fst (clear_history h)) limit = []"
  by (simp add: clear_history_def get_history_def slice_from_def)

subsection \<open>Room manager\<close>

text \<open>
  C3: in every state with no room \<open>r1\<close>, \<^verbatim>\<open>join_room("r1", "u1")\<close> creates the room, as
  the last key of the dictionary, and returns member count 1; \<^verbatim>\<open>leave_room("r1", "u1")\<close>
  then succeeds and leaves the room with member count 0, as \<^verbatim>\<open>list_rooms\<close> reports it;
  \<^verbatim>\<open>leave_room("r1", "u2")\<close>, for a user who never joined, returns success false and
  leaves the state as it is.
\<close>

theorem room_scenario:
  assumes "\<not> dict_contains rs ''r1''"
  shows "join_room rs ''r1'' ''u1'' =
           Inr (rs @ [(''r1'', {|''u1''|})],
                [(''success'', PBool True), (''room_id'', PStr ''r1''),
                 (''user_id'', PStr ''u1''), (''member_count'', PInt 1)])
       \<and> leave_room (rs @ [(''r1'', {|''u1''|})]) ''r1'' ''u1'' =
           Inr (rs @ [(''r1'', {||})], [(''success'', PBool True)])
       \<and> list_rooms (rs @ [(''r1'', {||})]) =
           list_rooms rs @ [[(''room_id'', PStr ''r1''), (''member_count'', PInt 0)]]
       \<and> leave_room (rs @ [(''r1'', {||})]) ''r1'' ''u2'' =
           Inr (rs @ [(''r1'', {||})],
                [(''success'', PBool False), (''error'', PStr ''User not in room'')])"
proof -
  have k: "''r1'' \<notin> set (map fst rs)"
    using assms by (simp add: dict_contains_def)
  have m: "room_members rs ''r1'' = {||}"
    using assms by (rule room_members_absent)
  have u: "AList.update ''r1'' v rs = rs @ [(''r1'', v)]" for v
    using k by (rule update_absent)
  have u2: "AList.update ''r1'' v (rs @ [(''r1'', w)]) = rs @ [(''r1'', v)]" for v w
    using u[of v] u[of w] update_last[of "''r1''" v w rs] by simp
  have m1: "room_members (rs @ [(''r1'', v)]) ''r1'' = v" for v
    using room_members_update[of "''r1''" v rs "''r1''"] u[of v] by simp
  show ?thesis
    by (simp add: join_room_eq leave_room_eq m u u2 m1 list_rooms_def fcard_finsert_if)
qed

theorem room_scenario_witness:
  "\<not> dict_contains [(''lobby'', {|''u2''|})] ''r1''
   \<and> join_room [(''lobby'', {|''u2''|})] ''r1'' ''u1'' =
       Inr ([(''lobby'', {|''u2''|}), (''r1'', {|''u1''|})],
            [(''success'', PBool True), (''room_id'', PStr ''r1''),
             (''user_id'', PStr ''u1''), (''member_count'', PInt 1)])
   \<and> leave_room [(''lobby'', {|''u2''|}), (''r1'', {|''u1''|})] ''r1'' ''u1'' =
       Inr ([(''lobby'', {|''u2''|}), (''r1'', {||})], [(''success'', PBool True)])
   \<and> leave_room [(''lobby'', {|''u2''|}), (''r1'', {||})] ''r1'' ''u2'' =
       Inr ([(''lobby'', {|''u2''|}), (''r1'', {||})],
            [(''success'', PBool False), (''error'', PStr ''User not in room'')])"
proof -
  have h: "\<not> dict_contains [(''lobby'', {|''u2''|})] ''r1''"
    by (simp add: dict_contains_def)
  from room_scenario[OF h] h show ?thesis by simp
qed

text \<open>
  C5: the invariant of the rooms dictionary under every run of calls of \<^verbatim>\<open>create_room\<close>,
  \<^verbatim>\<open>join_room\<close>, \<^verbatim>\<open>leave_room\<close>, \<^verbatim>\<open>get_room_members\<close> and \<^verbatim>\<open>list_rooms\<close>, from any
  state: every call returns; a room id that was a key before, or that one of the calls
  creates or joins, is a key afterwards; the keys stay distinct; and a member list of a
  room names each user once, its length being the member count that \<^verbatim>\<open>list_rooms\<close>
  reports for the room.
\<close>

theorem rooms_invariant:
  "\<exists>rs'. room_run rs cs = Inr rs'
     \<and> (\<forall>room_id. dict_contains rs room_id \<or> room_id \<in> \<Union> (touched ` set cs)
            \<longrightarrow> dict_contains rs' room_id)
     \<and> (distinct (map fst rs) \<longrightarrow> distinct (map fst rs'))
     \<and> (\<forall>room_id xs. get_room_members rs' room_id xs \<longrightarrow>
            distinct xs
            \<and> (dict_contains rs' room_id \<longrightarrow>
                 [(''room_id'', PStr room_id), (''member_count'', PInt (int (length xs)))]
                   \<in> set (list_rooms rs')))"
proof -
  obtain rs' where r: "room_run rs cs = Inr rs'"
    and k: "set (map fst rs') = set (map fst rs) \<union> \<Union> (touched ` set cs)"
    and d: "distinct (map fst rs) \<longrightarrow> distinct (map fst rs')"
    using room_run_total[of rs cs] by blast
  have "\<forall>room_id. dict_contains rs room_id \<or> room_id \<in> \<Union> (touched ` set cs)
            \<longrightarrow> dict_contains rs' room_id"
    unfolding dict_contains_def k by blast
  moreover have "distinct xs
      \<and> (dict_contains rs' room_id \<longrightarrow>
           [(''room_id'', PStr room_id), (''member_count'', PInt (int (length xs)))]
             \<in> set (list_rooms rs'))"
    if g: "get_room_members rs' room_id xs" for room_id xs
  proof -
    have dx: "distinct xs" and fx: "fset_of_list xs = room_members rs' room_id"
      using g by (simp_all add: get_room_members_def list_of_set_def)
    have "fcard (room_members rs' room_id) = length xs"
      using fcard_fset_of_list[OF dx] fx by simp
    then show ?thesis
      using dx list_rooms_entry[of rs' room_id] by simp
  qed
  ultimately show ?thesis using r d by blast
qed

theorem rooms_invariant_witness:
  "room_run init_rooms [CreateRoom ''r2'', JoinRoom ''r1'' ''u1'', JoinRoom ''r1'' ''u1'',
       LeaveRoom ''r1'' ''u1'', GetRoomMembers ''r1'', ListRooms]
     = Inr [(''r2'', {||}), (''r1'', {||})]
   \<and> dict_contains ([(''r2'', {||}), (''r1'', {||})] :: rooms) ''r1''
   \<and> dict_contains ([(''r2'', {||}), (''r1'', {||})] :: rooms) ''r2''
   \<and> distinct (map fst ([(''r2'', {||}), (''r1'', {||})] :: rooms))
   \<and> get_room_members [(''r2'', {||}), (''r1'', {||})] ''r1'' []
   \<and> [(''room_id'', PStr ''r1''), (''member_count'', PInt 0)]
         \<in> set (list_rooms [(''r2'', {||}), (''r1'', {||})])"
proof -
  let ?cs = "[CreateRoom ''r2'', JoinRoom ''r1'' ''u1'', JoinRoom ''r1'' ''u1'',
       LeaveRoom ''r1'' ''u1'', GetRoomMembers ''r1'', ListRooms]"
  have e: "room_run init_rooms ?cs = Inr [(''r2'', {||}), (''r1'', {||})]"
    by (simp add: init_rooms_def create_room_def dict_contains_def join_room_eq leave_room_eq
          room_members_def)
  obtain rs' where r: "room_run init_rooms ?cs = Inr rs'"
    and k: "\<forall>room_id. dict_contains init_rooms room_id \<or> room_id \<in> \<Union> (touched ` set ?cs)
            \<longrightarrow> dict_contains rs' room_id"
    and d: "distinct (map fst init_rooms) \<longrightarrow> distinct (map fst rs')"
    and m: "\<forall>room_id xs. get_room_members rs' room_id xs \<longrightarrow>
            distinct xs
            \<and> (dict_contains rs' room_id \<longrightarrow>
                 [(''room_id'', PStr room_id), (''member_count'', PInt (int (length xs)))]
                   \<in> set (list_rooms rs'))"
    using rooms_invariant[of init_rooms ?cs] by blast
  have rs': "rs' = [(''r2'', {||}), (''r1'', {||})]"
    using e r by simp
  have c1: "dict_contains rs' ''r1''" and c2: "dict_contains rs' ''r2''"
    using k by simp_all
  have dk: "distinct (map fst rs')"
    using d by (simp add: init_rooms_def)
  have g: "get_room_members rs' ''r1'' []"
    unfolding rs' by (simp add: get_room_members_def room_members_def list_of_set_def)
  have "[(''room_id'', PStr ''r1''), (''member_count'', PInt (int (length ([] :: string list))))]
          \<in> set (list_rooms rs')"
    using m g c1 by blast
  then have l: "[(''room_id'', PStr ''r1''), (''member_count'', PInt 0)] \<in> set (list_rooms rs')"
    by simp
  show ?thesis
    using e c1 c2 dk g l unfolding rs' by (intro conjI)
qed

text \<open>
  C6: the soft failures are results, not exceptions. \<^verbatim>\<open>create_room\<close> and \<^verbatim>\<open>leave_room\<close>
  never raise; \<^verbatim>\<open>create_room\<close> on a room that exists, and \<^verbatim>\<open>leave_room\<close> on a room that
  does not exist or for a user who is not in the room, return success false with an error
  reason, and the rooms are unchanged.
\<close>

theorem soft_failures:
  "(\<forall>e. create_room rs room_id \<noteq> Inl e) \<and> (\<forall>e. leave_room rs room_id user_id \<noteq> Inl e)
   \<and> (dict_contains rs room_id \<longrightarrow>
        create_room rs room_id =
          Inr (rs, [(''success'', PBool False), (''error'', PStr ''Room already exists'')]))
   \<and> (\<not> dict_contains rs room_id \<or> user_id |\<notin>| room_members rs room_id \<longrightarrow>
        leave_room rs room_id user_id =
          Inr (rs, [(''success'', PBool False), (''error'', PStr ''User not in room'')]))"
  by (auto simp: create_room_def leave_room_eq room_members_absent)

theorem soft_failures_witness:
  "dict_contains [(''r1'', {|''u1''|})] ''r1''
   \<and> create_room [(''r1'', {|''u1''|})] ''r1'' =
       Inr ([(''r1'', {|''u1''|})],
            [(''success'', PBool False), (''error'', PStr ''Room already exists'')])
   \<and> \<not> dict_contains [(''r1'', {|''u1''|})] ''r9''
   \<and> leave_room [(''r1'', {|''u1''|})] ''r9'' ''u1'' =
       Inr ([(''r1'', {|''u1''|})],
            [(''success'', PBool False), (''error'', PStr ''User not in room'')])
   \<and> ''u2'' |\<notin>| room_members [(''r1'', {|''u1''|})] ''r1''
   \<and> leave_room [(''r1'', {|''u1''|})] ''r1'' ''u2'' =
       Inr ([(''r1'', {|''u1''|})],
            [(''success'', PBool False), (''error'', PStr ''User not in room'')])"
proof -
  have a: "dict_contains [(''r1'', {|''u1''|})] ''r1''"
    and b: "\<not> dict_contains [(''r1'', {|''u1''|})] ''r9''"
    and c: "''u2'' |\<notin>| room_members [(''r1'', {|''u1''|})] ''r1''"
    by (simp_all add: dict_contains_def room_members_def)
  show ?thesis
    using a b c soft_failures[of "[(''r1'', {|''u1''|})]" "''r1''" "''u2''"]
      soft_failures[of "[(''r1'', {|''u1''|})]" "''r9''" "''u1''"]
    by blast
qed

text \<open>
  C9: \<^verbatim>\<open>join_room\<close> is idempotent. In every state, for every room and user, the call
  succeeds, and a second call with the same arguments leaves the rooms as the first call
  left them and returns the same result, with the same member count.
\<close>

theorem join_room_idempotent:
  "\<exists>rs1 n. join_room rs room_id user_id =
             Inr (rs1, [(''success'', PBool True), (''room_id'', PStr room_id),
                        (''user_id'', PStr user_id), (''member_count'', PInt n)])
        \<and> join_room rs1 room_id user_id =
             Inr (rs1, [(''success'', PBool True), (''room_id'', PStr room_id),
                        (''user_id'', PStr user_id), (''member_count'', PInt n)])"
  by (simp add: join_room_eq room_members_update)

text \<open>
  C10: after any run of calls on a fresh room manager, for a room id that none of the
  calls creates or joins, \<^verbatim>\<open>get_room_members\<close> returns the empty list and nothing
  else; the call leaves the rooms as they are, and the room id is still not a key.
\<close>

theorem get_room_members_untouched:
  assumes "room_id \<notin> \<Union> (touched ` set cs)"
  shows "\<exists>rs. room_run init_rooms cs = Inr rs
          \<and> (\<forall>xs. get_room_members rs room_id xs \<longleftrightarrow> xs = [])
          \<and> room_step rs (GetRoomMembers room_id) = Inr rs
          \<and> \<not> dict_contains rs room_id"
proof -
  obtain rs where r: "room_run init_rooms cs = Inr rs"
    and k: "set (map fst rs) = set (map fst init_rooms) \<union> \<Union> (touched ` set cs)"
    using room_run_total[of init_rooms cs] by blast
  have n: "\<not> dict_contains rs room_id"
    using assms unfolding dict_contains_def k by (simp add: init_rooms_def)
  then have "room_members rs room_id = {||}"
    by (rule room_members_absent)
  then have "\<forall>xs. get_room_members rs room_id xs \<longleftrightarrow> xs = []"
    by (simp add: get_room_members_def list_of_set_empty)
  then show ?thesis using r n by simp
qed

theorem get_room_members_untouched_witness:
  "''r2'' \<notin> \<Union> (touched ` set [JoinRoom ''r1'' ''u1'', LeaveRoom ''r2'' ''u1''])
   \<and> room_run init_rooms [JoinRoom ''r1'' ''u1'', LeaveRoom ''r2'' ''u1'']
       = Inr [(''r1'', {|''u1''|})]
   \<and> get_room_members [(''r1'', {|''u1''|})] ''r2'' []
   \<and> \<not> get_room_members [(''r1'', {|''u1''|})] ''r2'' [''u1'']"
proof -
  let ?cs = "[JoinRoom ''r1'' ''u1'', LeaveRoom ''r2'' ''u1'']"
  have h: "''r2'' \<notin> \<Union> (touched ` set ?cs)" by simp
  have e: "room_run init_rooms ?cs = Inr [(''r1'', {|''u1''|})]"
    by (simp add: init_rooms_def join_room_eq leave_room_eq room_members_def)
  obtain rs where r: "room_run init_rooms ?cs = Inr rs"
    and g: "\<forall>xs. get_room_members rs ''r2'' xs \<longleftrightarrow> xs = []"
    using get_room_members_untouched[OF h] by blast
  have "rs = [(''r1'', {|''u1''|})]" using e r by simp
  with g have "\<forall>xs. get_room_members [(''r1'', {|''u1''|})] ''r2'' xs \<longleftrightarrow> xs = []" by simp
  then have "get_room_members [(''r1'', {|''u1''|})] ''r2'' []"
    and "\<not> get_room_members [(''r1'', {|''u1''|})] ''r2'' [''u1'']" by simp_all
  with h e show ?thesis by blast
qed

subsection \<open>Intent classification and response generation\<close>

text \<open>
  C4: for the message \<open>hello\<close> the classifier returns intent \<open>greeting\<close> with confidence
  0.9. In every registry that binds \<^verbatim>\<open>classify_intent\<close> of the intent classifier and
  \<^verbatim>\<open>add_message\<close> of the conversation agent, and in every state of the agents,
  \<^verbatim>\<open>generate_response("hello")\<close> returns the fixed greeting text and appends exactly two
  records to the history, the user's and then the assistant's.
\<close>

theorem hello_response:
  assumes "binds reg ''IntentClassifierAgent'' ''classify_intent'' classify_intent_op"
    and "binds reg ''ConversationAgent'' ''add_message'' add_message_op"
  shows "classify_intent ''hello'' =
           [(''intent'', PStr ''greeting''), (''confidence'', PFloat 0.9)]
       \<and> generate_response reg s ''hello'' =
           Inr (s\<lparr>conversation := conversation s @
                   [[(''role'', PStr ''user''), (''content'', PStr ''hello'')],
                    [(''role'', PStr ''assistant''),
                     (''content'', PStr ''Hello! How can I help you today?'')]]\<rparr>,
                [(''response'', PStr ''Hello! How can I help you today?''),
                 (''intent'', PStr ''greeting''), (''confidence'', PFloat 0.9)])"
proof -
  have c: "classify_intent ''hello'' =
             [(''intent'', PStr ''greeting''), (''confidence'', PFloat 0.9)]"
    by (simp add: classify_intent_def any_word_in_def lower_def lower_char_def)
  have i1: "invoke reg t ''IntentClassifierAgent'' ''classify_intent''
              [(''message'', PStr ''hello'')]
              = Inr (t, PDict (classify_intent ''hello''))" for t
    using assms(1)
    by (auto simp: binds_def invoke_def classify_intent_op_def dict_get_def
          split: option.splits)
  have i2: "invoke reg t ''ConversationAgent'' ''add_message''
              [(''role'', r), (''content'', x)]
              = Inr (t\<lparr>conversation := conversation t @ [[(''role'', r), (''content'', x)]]\<rparr>,
                     PDict [(''success'', PBool True),
                            (''message_count'', PInt (int (length (conversation t)) + 1))])"
    for t r x
    using assms(2)
    by (auto simp: binds_def invoke_def add_message_op_def dict_get_def add_message_def
          split: option.splits)
  show ?thesis
    by (simp add: c generate_response_def i1 i2 val_get_def dict_get_def lookup_response_def
          responses_def)
qed

theorem hello_response_witness:
  "binds dependencies ''IntentClassifierAgent'' ''classify_intent'' classify_intent_op
   \<and> binds dependencies ''ConversationAgent'' ''add_message'' add_message_op
   \<and> generate_response dependencies init_agents ''hello'' =
       Inr (\<lparr>conversation =
               [[(''role'', PStr ''user''), (''content'', PStr ''hello'')],
                [(''role'', PStr ''assistant''),
                 (''content'', PStr ''Hello! How can I help you today?'')]],
             room_manager = []\<rparr>,
            [(''response'', PStr ''Hello! How can I help you today?''),
             (''intent'', PStr ''greeting''), (''confidence'', PFloat 0.9)])"
proof -
  have b1: "binds dependencies ''IntentClassifierAgent'' ''classify_intent'' classify_intent_op"
    by (simp add: binds_def dependencies_def)
  have b2: "binds dependencies ''ConversationAgent'' ''add_message'' add_message_op"
    by (simp add: binds_def dependencies_def)
  from hello_response[OF b1 b2, of init_agents] b1 b2 show ?thesis
    by (simp add: init_agents_def init_history_def init_rooms_def)
qed

end
